theory Spec2Isabelle
  imports Complex_Main "HOL-Library.Sublist" "HOL-Library.Multiset" "HOL-Library.Char_ord"
    "HOL-Library.List_Lexorder" "HOL-Library.Product_Lexorder"
begin

section \<open>The data frame of the dashboard script\<close>

text \<open>
  The script \<^verbatim>\<open>code.py\<close> reads a CSV file into a pandas data frame \<^verbatim>\<open>df\<close> and then runs,
  top to bottom, a cleaning block, a sidebar filter, a block of four metrics and a sequence of
  chart blocks. A cell of the frame is a number, a text or the missing value; numbers are
  taken as exact rationals: neither the rounding of binary floating point nor the wrap-around
  of a sum of 64-bit integers is part of this model, so a displayed number can differ from
  the model's in its last digit. Texts are strings of Latin-1 characters, as the file is read.
  A row associates column names with cells; a column that a row does not mention reads as
  missing, as \<^verbatim>\<open>read_csv\<close> fills short rows.
\<close>

datatype cell = NaN | Num rat | Str string

datatype error = KeyError string | ValueError | TypeError

type_synonym row = "(string \<times> cell) list"

record table =
  columns :: "string list"
  rows :: "row list"

definition cell_of :: "row \<Rightarrow> string \<Rightarrow> cell" where
  "cell_of r c = (case map_of r c of Some v \<Rightarrow> v | None \<Rightarrow> NaN)"

text \<open>\<^verbatim>\<open>df[c]\<close>: the cells of column \<open>c\<close>, or \<^verbatim>\<open>KeyError\<close> when the frame has no such column.\<close>

definition getitem :: "table \<Rightarrow> string \<Rightarrow> error + cell list" where
  "getitem df c =
     (if c \<in> set (columns df) then Inr (map (\<lambda>r. cell_of r c) (rows df))
      else Inl (KeyError c))"

section \<open>Data cleaning (lines 27 to 31)\<close>

text \<open>
  \<^verbatim>\<open>drop_duplicates(subset=k)\<close> keeps the first row of every key value (\<^verbatim>\<open>keep='first'\<close>);
  the keys met so far are remembered, and two missing keys count as equal.
\<close>

fun drop_dups :: "string \<Rightarrow> cell list \<Rightarrow> row list \<Rightarrow> row list" where
  "drop_dups k seen [] = []"
| "drop_dups k seen (r # rs) =
     (if cell_of r k \<in> set seen then drop_dups k seen rs
      else r # drop_dups k (cell_of r k # seen) rs)"

definition drop_duplicates :: "table \<Rightarrow> string \<Rightarrow> table" where
  "drop_duplicates df k = df\<lparr>rows := drop_dups k [] (rows df)\<rparr>"

text \<open>\<^verbatim>\<open>dropna(subset=cs)\<close> keeps the rows with no missing cell in the columns \<open>cs\<close>.\<close>

definition dropna :: "table \<Rightarrow> string list \<Rightarrow> table" where
  "dropna df cs = df\<lparr>rows := filter (\<lambda>r. list_all (\<lambda>c. cell_of r c \<noteq> NaN) cs) (rows df)\<rparr>"

definition required_columns :: "string list" where
  "required_columns = [''city'', ''cuisines'', ''aggregate_rating'']"

definition drop_cols :: "table \<Rightarrow> string list" where
  "drop_cols df = filter (\<lambda>c. c \<in> set (columns df)) required_columns"

text \<open>The value that the cleaning block leaves in \<^verbatim>\<open>df\<close>.\<close>

definition clean :: "table \<Rightarrow> table" where
  "clean df =
     (let df1 = (if ''restaurant_id'' \<in> set (columns df)
                 then drop_duplicates df ''restaurant_id'' else df)
      in dropna df1 (drop_cols df1))"

section \<open>Sidebar filter (lines 38 to 44)\<close>

text \<open>
  \<^verbatim>\<open>s.isin(values)\<close> is membership, cell by cell. The selection comes from the multiselect
  widget; the filter proper is the guarded assignment of lines 43 and 44, here with the
  column name as a parameter (the script passes \<^verbatim>\<open>'city'\<close>).
\<close>

definition isin :: "cell list \<Rightarrow> cell list \<Rightarrow> bool list" where
  "isin s vals = map (\<lambda>x. x \<in> set vals) s"

definition filter_by_values :: "table \<Rightarrow> string \<Rightarrow> cell list \<Rightarrow> table" where
  "filter_by_values df col selected =
     (if col \<in> set (columns df) then
        (if selected \<noteq> [] then
           df\<lparr>rows := map fst (filter snd
                   (zip (rows df) (isin (map (\<lambda>r. cell_of r col) (rows df)) selected)))\<rparr>
         else df)
      else df)"

section \<open>The script's variable and the objects it names\<close>

text \<open>
  Both cleaning calls pass \<^verbatim>\<open>inplace=True\<close>: they change the frame object that \<^verbatim>\<open>df\<close>
  names. The filter of line 44 is an assignment: it builds a new frame and rebinds \<^verbatim>\<open>df\<close>.
  The store is the list of frame objects made so far, \<^verbatim>\<open>df\<close> holds the index of one of them.
  The decorator of \<^verbatim>\<open>load_data\<close> keeps a serialised copy of the frame that the function
  returned: the table of the cache is a value of its own, not an object of the store.
\<close>

record state =
  heap :: "table list"
  df_ref :: nat
  cache :: "table option"

definition frame :: "state \<Rightarrow> table" where
  "frame s = heap s ! df_ref s"

text \<open>
  \<^verbatim>\<open>df = load_data()\<close>, lines 15 to 21. The argument \<open>csv\<close> is the frame that reading the file
  and normalising the column names gives. The first call runs the function and caches a copy
  of its result; a later call takes a fresh copy out of the cache. Either way \<^verbatim>\<open>df\<close> names
  a new object.
\<close>

definition cached :: "table \<Rightarrow> state \<Rightarrow> table" where
  "cached csv s = (case cache s of None \<Rightarrow> csv | Some c \<Rightarrow> c)"

definition load_data :: "table \<Rightarrow> state \<Rightarrow> state" where
  "load_data csv s =
     (let t = cached csv s
      in s\<lparr>heap := heap s @ [t], df_ref := length (heap s), cache := Some t\<rparr>)"

definition drop_duplicates_inplace :: "string \<Rightarrow> state \<Rightarrow> state" where
  "drop_duplicates_inplace k s =
     s\<lparr>heap := (heap s)[df_ref s := drop_duplicates (heap s ! df_ref s) k]\<rparr>"

definition dropna_inplace :: "string list \<Rightarrow> state \<Rightarrow> state" where
  "dropna_inplace cs s = s\<lparr>heap := (heap s)[df_ref s := dropna (heap s ! df_ref s) cs]\<rparr>"

definition cleaning :: "state \<Rightarrow> state" where
  "cleaning s =
     (let s1 = (if ''restaurant_id'' \<in> set (columns (heap s ! df_ref s))
                then drop_duplicates_inplace ''restaurant_id'' s else s)
      in dropna_inplace (drop_cols (heap s1 ! df_ref s1)) s1)"

definition sidebar_filter :: "cell list \<Rightarrow> state \<Rightarrow> state" where
  "sidebar_filter selected_cities s =
     (if ''city'' \<in> set (columns (heap s ! df_ref s)) then
        (if selected_cities \<noteq> [] then
           s\<lparr>heap := heap s @ [filter_by_values (heap s ! df_ref s) ''city'' selected_cities],
             df_ref := length (heap s)\<rparr>
         else s)
      else s)"

section \<open>Key metrics (lines 52 to 55)\<close>

text \<open>
  A reduction skips missing cells. A column that holds text has dtype object: \<^verbatim>\<open>mean\<close> raises
  \<^verbatim>\<open>TypeError\<close> on it; \<^verbatim>\<open>sum\<close> puts 0 for the missing cells and adds from left to right, which
  concatenates when every cell is a text and raises \<^verbatim>\<open>TypeError\<close> as soon as a text meets a
  number. The mean of no number at all is NaN, written \<open>None\<close>; \<^verbatim>\<open>round(x, 2)\<close> rounds halves
  to even and leaves NaN as it is. \<^verbatim>\<open>int\<close> truncates a number towards zero, rejects NaN with
  \<^verbatim>\<open>ValueError\<close>, and reads a text as a decimal numeral: white space around it, one sign,
  digits, single underscores between digits; any other text is a \<^verbatim>\<open>ValueError\<close>.
\<close>

definition is_text :: "cell \<Rightarrow> bool" where
  "is_text x = (case x of Str _ \<Rightarrow> True | _ \<Rightarrow> False)"

fun numbers :: "cell list \<Rightarrow> rat list" where
  "numbers [] = []"
| "numbers (Num q # xs) = q # numbers xs"
| "numbers (_ # xs) = numbers xs"

definition nanmean :: "rat list \<Rightarrow> rat option" where
  "nanmean qs = (if qs = [] then None else Some (sum_list qs / of_nat (length qs)))"

definition series_mean :: "cell list \<Rightarrow> error + rat option" where
  "series_mean xs = (if list_ex is_text xs then Inl TypeError else Inr (nanmean (numbers xs)))"

fun texts :: "cell list \<Rightarrow> string list" where
  "texts [] = []"
| "texts (Str t # xs) = t # texts xs"
| "texts (_ # xs) = texts xs"

definition series_sum :: "cell list \<Rightarrow> error + cell" where
  "series_sum xs =
     (if \<not> list_ex is_text xs then Inr (Num (sum_list (numbers xs)))
      else if list_all is_text xs then Inr (Str (concat (texts xs)))
      else Inl TypeError)"

definition py_int :: "rat option \<Rightarrow> error + int" where
  "py_int x = (case x of None \<Rightarrow> Inl ValueError
               | Some q \<Rightarrow> Inr (if 0 \<le> q then \<lfloor>q\<rfloor> else \<lceil>q\<rceil>))"

definition is_space :: "char \<Rightarrow> bool" where
  "is_space c = (of_char c \<in> set [9, 10, 11, 12, 13, 28, 29, 30, 31, 32, 133, 160 :: nat])"

definition is_digit :: "char \<Rightarrow> bool" where
  "is_digit c = (48 \<le> (of_char c :: nat) \<and> (of_char c :: nat) \<le> 57)"

definition digit_value :: "char \<Rightarrow> nat" where
  "digit_value c = of_char c - 48"

fun more_digits :: "nat \<Rightarrow> string \<Rightarrow> nat option" where
  "more_digits acc [] = Some acc"
| "more_digits acc [c] = (if is_digit c then Some (10 * acc + digit_value c) else None)"
| "more_digits acc (c # d # cs) =
     (if is_digit c then more_digits (10 * acc + digit_value c) (d # cs)
      else if c = CHR ''_'' \<and> is_digit d then more_digits (10 * acc + digit_value d) cs
      else None)"

definition numeral_value :: "string \<Rightarrow> nat option" where
  "numeral_value t =
     (case t of [] \<Rightarrow> None
      | c # cs \<Rightarrow> if is_digit c then more_digits (digit_value c) cs else None)"

definition strip :: "string \<Rightarrow> string" where
  "strip t = rev (dropWhile is_space (rev (dropWhile is_space t)))"

definition int_of_text :: "string \<Rightarrow> error + int" where
  "int_of_text t =
     (let u = strip t;
          v = (case u of [] \<Rightarrow> None
               | c # cs \<Rightarrow>
                   if c = CHR ''-'' then map_option (\<lambda>n. - int n) (numeral_value cs)
                   else if c = CHR ''+'' then map_option int (numeral_value cs)
                   else map_option int (numeral_value u))
      in case v of None \<Rightarrow> Inl ValueError | Some i \<Rightarrow> Inr i)"

definition py_int_of :: "cell \<Rightarrow> error + int" where
  "py_int_of x =
     (case x of NaN \<Rightarrow> py_int None | Num q \<Rightarrow> py_int (Some q) | Str t \<Rightarrow> int_of_text t)"

definition round_half_even :: "rat \<Rightarrow> int" where
  "round_half_even q =
     (let f = \<lfloor>q\<rfloor>; d = q - of_int f
      in if d < 1 / 2 then f else if 1 / 2 < d then f + 1 else if even f then f else f + 1)"

definition py_round2 :: "rat option \<Rightarrow> rat option" where
  "py_round2 x = map_option (\<lambda>q. of_int (round_half_even (q * 100)) / 100) x"

definition and_then :: "error + 'a \<Rightarrow> ('a \<Rightarrow> error + 'b) \<Rightarrow> error + 'b" where
  "and_then r f = (case r of Inl e \<Rightarrow> Inl e | Inr x \<Rightarrow> f x)"

record metrics =
  total_restaurants :: nat
  average_rating :: "rat option"
  total_votes :: int
  avg_cost_for_two :: int

text \<open>
  The four metrics, in the order of the script. Lines 54 and 55 ask whether their column
  exists; line 53 reads \<^verbatim>\<open>df['aggregate_rating']\<close> without asking.
\<close>

definition compute_metrics :: "table \<Rightarrow> error + metrics" where
  "compute_metrics df =
     and_then (getitem df ''aggregate_rating'') (\<lambda>ratings.
     and_then (series_mean ratings) (\<lambda>avg.
     and_then (if ''votes'' \<in> set (columns df)
               then and_then (getitem df ''votes'') (\<lambda>vs. and_then (series_sum vs) py_int_of)
               else Inr 0) (\<lambda>votes.
     and_then (if ''average_cost_for_two'' \<in> set (columns df)
               then and_then (getitem df ''average_cost_for_two'')
                      (\<lambda>cs. and_then (series_mean cs) py_int)
               else Inr 0) (\<lambda>cost.
     Inr \<lparr>total_restaurants = length (rows df), average_rating = py_round2 avg,
          total_votes = votes, avg_cost_for_two = cost\<rparr>))))"

section \<open>Top ten cities and cuisines (lines 62 to 81)\<close>

text \<open>
  \<^verbatim>\<open>value_counts()\<close> first tallies the values in one pass, a new value going to the end of
  the table and missing cells being skipped (\<^verbatim>\<open>dropna=True\<close>), and then sorts the tally by
  descending count with \<^verbatim>\<open>sort_values(ascending=False)\<close>. That sort runs with the library's
  default kind \<^verbatim>\<open>quicksort\<close>, which is not a stable sort: where it leaves equal counts is
  the business of the sorting routine, not of the script. The routine is therefore a
  parameter \<open>srt\<close> of the model.
\<close>

fun tally :: "cell \<Rightarrow> (cell \<times> nat) list \<Rightarrow> (cell \<times> nat) list" where
  "tally x [] = [(x, 1)]"
| "tally x ((y, c) # ycs) = (if x = y then (y, Suc c) # ycs else (y, c) # tally x ycs)"

definition value_count :: "cell list \<Rightarrow> (cell \<times> nat) list" where
  "value_count xs = foldl (\<lambda>acc x. if x = NaN then acc else tally x acc) [] xs"

definition value_counts ::
    "((cell \<times> nat) list \<Rightarrow> (cell \<times> nat) list) \<Rightarrow> cell list \<Rightarrow> (cell \<times> nat) list" where
  "value_counts srt xs = srt (value_count xs)"

definition head :: "nat \<Rightarrow> 'a list \<Rightarrow> 'a list" where
  "head n xs = take n xs"

text \<open>A chart block that finds its column missing is skipped: the result \<open>None\<close>.\<close>

definition top_n_frequency ::
    "((cell \<times> nat) list \<Rightarrow> (cell \<times> nat) list) \<Rightarrow> table \<Rightarrow> string \<Rightarrow> nat
      \<Rightarrow> (cell \<times> nat) list option" where
  "top_n_frequency srt df col n =
     (if col \<in> set (columns df)
      then Some (head n (value_counts srt (map (\<lambda>r. cell_of r col) (rows df))))
      else None)"

definition city_count ::
    "((cell \<times> nat) list \<Rightarrow> (cell \<times> nat) list) \<Rightarrow> table \<Rightarrow> (cell \<times> nat) list option" where
  "city_count srt df = top_n_frequency srt df ''city'' 10"

definition cuisine_count ::
    "((cell \<times> nat) list \<Rightarrow> (cell \<times> nat) list) \<Rightarrow> table \<Rightarrow> (cell \<times> nat) list option" where
  "cuisine_count srt df = top_n_frequency srt df ''cuisines'' 10"

text \<open>One sorting routine to run the model with: insertion sort on the negated count.\<close>

definition insertion_desc :: "(cell \<times> nat) list \<Rightarrow> (cell \<times> nat) list" where
  "insertion_desc kcs = sort_key (\<lambda>p. - int (snd p)) kcs"

section \<open>Rating distribution (lines 86 to 88)\<close>

text \<open>
  The plotting call takes the frame and a column name and raises \<^verbatim>\<open>ValueError\<close> when the
  frame has no column of that name; otherwise the figure holds the column's cells (the bins
  are drawn from them later). The script makes the call without asking for the column.
\<close>

definition px_histogram :: "table \<Rightarrow> string \<Rightarrow> error + cell list" where
  "px_histogram df x =
     (if x \<in> set (columns df) then Inr (map (\<lambda>r. cell_of r x) (rows df)) else Inl ValueError)"

definition fig3 :: "table \<Rightarrow> error + cell list" where
  "fig3 df = px_histogram df ''aggregate_rating''"

section \<open>Price range against average rating (lines 115 and 116)\<close>

text \<open>
  \<^verbatim>\<open>groupby(g)[v].mean()\<close>: one pass adds every row's value to the sum and the count of its
  key's group, rows with a missing key belonging to no group (\<^verbatim>\<open>dropna=True\<close>); the groups
  then come out sorted by key (\<^verbatim>\<open>sort=True\<close>), numbers before texts.
\<close>

definition cell_key :: "cell \<Rightarrow> nat \<times> rat \<times> string" where
  "cell_key x = (case x of Num q \<Rightarrow> (0, q, []) | Str t \<Rightarrow> (1, 0, t) | NaN \<Rightarrow> (2, 0, []))"

definition add_value :: "cell \<Rightarrow> rat \<times> nat \<Rightarrow> rat \<times> nat" where
  "add_value x a = (case x of Num q \<Rightarrow> (fst a + q, Suc (snd a)) | _ \<Rightarrow> a)"

fun group_add :: "cell \<Rightarrow> cell \<Rightarrow> (cell \<times> rat \<times> nat) list \<Rightarrow> (cell \<times> rat \<times> nat) list" where
  "group_add k x [] = [(k, add_value x (0, 0))]"
| "group_add k x ((k', a) # gs) =
     (if k = k' then (k', add_value x a) # gs else (k', a) # group_add k x gs)"

definition group_sums :: "(cell \<times> cell) list \<Rightarrow> (cell \<times> rat \<times> nat) list" where
  "group_sums kxs = foldl (\<lambda>gs (k, x). if k = NaN then gs else group_add k x gs) [] kxs"

definition group_mean :: "cell \<times> rat \<times> nat \<Rightarrow> cell \<times> rat option" where
  "group_mean g = (case g of (k, s, n) \<Rightarrow> (k, if n = 0 then None else Some (s / of_nat n)))"

definition grouped_mean :: "table \<Rightarrow> string \<Rightarrow> string \<Rightarrow> error + (cell \<times> rat option) list" where
  "grouped_mean df g v =
     and_then (getitem df g) (\<lambda>ks.
     and_then (getitem df v) (\<lambda>xs.
       if list_ex is_text xs then Inl TypeError
       else Inr (map group_mean (sort_key (\<lambda>g. cell_key (fst g)) (group_sums (zip ks xs))))))"

definition price_rating :: "table \<Rightarrow> error + (cell \<times> rat option) list option" where
  "price_rating df =
     (if ''price_range'' \<in> set (columns df)
      then and_then (grouped_mean df ''price_range'' ''aggregate_rating'') (\<lambda>t. Inr (Some t))
      else Inr None)"

section \<open>Scatter plots and the map (lines 93 to 110 and 127 to 137)\<close>

text \<open>
  A plotting call checks every column name it is given against the frame and raises
  \<^verbatim>\<open>ValueError\<close> for a name that is not a column; an argument that is \<^verbatim>\<open>None\<close> names nothing.
  The marker sizes must be numbers that are not negative: a missing or a text cell in the
  size column is a \<^verbatim>\<open>ValueError\<close> too. The figure holds the cells of the columns it uses.
  In the call of line 94 the colour and the size ask whether their column exists; the hover
  column \<^verbatim>\<open>cuisines\<close> is passed without asking.
\<close>

definition given :: "'a option \<Rightarrow> 'a list" where
  "given x = (case x of None \<Rightarrow> [] | Some c \<Rightarrow> [c])"

definition valid_size :: "cell \<Rightarrow> bool" where
  "valid_size x = (case x of Num q \<Rightarrow> 0 \<le> q | _ \<Rightarrow> False)"

definition px_scatter ::
    "table \<Rightarrow> string \<Rightarrow> string \<Rightarrow> string option \<Rightarrow> string option \<Rightarrow> string list
      \<Rightarrow> error + cell list list" where
  "px_scatter df x y color size_column hover_data =
     (let used = [x, y] @ given color @ given size_column @ hover_data
      in if \<not> list_all (\<lambda>c. c \<in> set (columns df)) used then Inl ValueError
         else if list_ex (\<lambda>c. list_ex (\<lambda>r. \<not> valid_size (cell_of r c)) (rows df))
                   (given size_column)
         then Inl ValueError
         else Inr (map (\<lambda>r. map (cell_of r) used) (rows df)))"

definition px_scatter_mapbox ::
    "table \<Rightarrow> string \<Rightarrow> string \<Rightarrow> string option \<Rightarrow> string list \<Rightarrow> string
      \<Rightarrow> error + cell list list" where
  "px_scatter_mapbox df lat lon hover_name hover_data color =
     (let used = [lat, lon] @ given hover_name @ hover_data @ [color]
      in if \<not> list_all (\<lambda>c. c \<in> set (columns df)) used then Inl ValueError
         else Inr (map (\<lambda>r. map (cell_of r) used) (rows df)))"

definition present :: "table \<Rightarrow> string \<Rightarrow> string option" where
  "present df c = (if c \<in> set (columns df) then Some c else None)"

definition fig4 :: "table \<Rightarrow> error + cell list list option" where
  "fig4 df =
     (if ''average_cost_for_two'' \<in> set (columns df) \<and> ''aggregate_rating'' \<in> set (columns df)
      then and_then
             (px_scatter df ''average_cost_for_two'' ''aggregate_rating''
                (present df ''city'') (present df ''votes'') [''cuisines''])
             (\<lambda>f. Inr (Some f))
      else Inr None)"

definition fig5 :: "table \<Rightarrow> error + cell list list option" where
  "fig5 df =
     (if ''votes'' \<in> set (columns df)
      then and_then (px_scatter df ''votes'' ''aggregate_rating'' (present df ''city'') None [])
             (\<lambda>f. Inr (Some f))
      else Inr None)"

definition fig7 :: "table \<Rightarrow> error + cell list list option" where
  "fig7 df =
     (if ''latitude'' \<in> set (columns df) \<and> ''longitude'' \<in> set (columns df)
      then and_then
             (px_scatter_mapbox df ''latitude'' ''longitude'' (present df ''restaurant_name'')
                [''city'', ''cuisines'', ''aggregate_rating''] ''aggregate_rating'')
             (\<lambda>f. Inr (Some f))
      else Inr None)"

section \<open>The script from top to bottom\<close>

text \<open>
  The chart blocks for cities, cuisines and price ranges build a frame of their own with
  \<^verbatim>\<open>reset_index()\<close>; the assignment to \<^verbatim>\<open>columns\<close> on the next line renames the columns of that
  new frame, in place. The metrics and the figures read \<^verbatim>\<open>df\<close> and build no frame.
\<close>

definition counts_frame :: "string \<Rightarrow> (cell \<times> nat) list \<Rightarrow> table" where
  "counts_frame name kcs =
     \<lparr>columns = [name, ''count''],
      rows = map (\<lambda>p. [(name, fst p), (''count'', Num (of_nat (snd p)))]) kcs\<rparr>"

definition means_frame :: "string \<Rightarrow> string \<Rightarrow> (cell \<times> rat option) list \<Rightarrow> table" where
  "means_frame g v kms =
     \<lparr>columns = [g, v],
      rows = map (\<lambda>p. [(g, fst p), (v, case snd p of None \<Rightarrow> NaN | Some q \<Rightarrow> Num q)]) kms\<rparr>"

definition set_columns :: "string list \<Rightarrow> table \<Rightarrow> table" where
  "set_columns names t = \<lparr>columns = names, rows = map (\<lambda>r. zip names (map snd r)) (rows t)\<rparr>"

definition counts_block ::
    "string \<Rightarrow> string list \<Rightarrow> (cell \<times> nat) list option \<Rightarrow> state \<Rightarrow> state" where
  "counts_block name names counts s =
     (case counts of None \<Rightarrow> s
      | Some kcs \<Rightarrow>
          (let n = length (heap s);
               s1 = s\<lparr>heap := heap s @ [counts_frame name kcs]\<rparr>
           in s1\<lparr>heap := (heap s1)[n := set_columns names (heap s1 ! n)]\<rparr>))"

definition city_block :: "((cell \<times> nat) list \<Rightarrow> (cell \<times> nat) list) \<Rightarrow> state \<Rightarrow> state" where
  "city_block srt s = counts_block ''city'' [''city'', ''count''] (city_count srt (frame s)) s"

definition cuisine_block :: "((cell \<times> nat) list \<Rightarrow> (cell \<times> nat) list) \<Rightarrow> state \<Rightarrow> state" where
  "cuisine_block srt s =
     counts_block ''cuisines'' [''cuisine'', ''count''] (cuisine_count srt (frame s)) s"

definition price_block :: "state \<Rightarrow> error + state" where
  "price_block s =
     and_then (price_rating (frame s)) (\<lambda>r.
       case r of None \<Rightarrow> Inr s
       | Some kms \<Rightarrow>
           Inr (s\<lparr>heap := heap s @ [means_frame ''price_range'' ''aggregate_rating'' kms]\<rparr>))"

text \<open>
  Line 39 sorts the cities for the widget: \<^verbatim>\<open>sorted\<close> raises \<^verbatim>\<open>TypeError\<close> when it has to
  compare a text with a number. The selection is what the user leaves in the widget.
\<close>

definition is_number :: "cell \<Rightarrow> bool" where
  "is_number x = (case x of Num _ \<Rightarrow> True | _ \<Rightarrow> False)"

definition sidebar :: "cell list \<Rightarrow> state \<Rightarrow> error + state" where
  "sidebar selected_cities s =
     (if ''city'' \<in> set (columns (frame s))
         \<and> list_ex is_text (map (\<lambda>r. cell_of r ''city'') (rows (frame s)))
         \<and> list_ex is_number (map (\<lambda>r. cell_of r ''city'') (rows (frame s)))
      then Inl TypeError
      else Inr (sidebar_filter selected_cities s))"

definition run ::
    "((cell \<times> nat) list \<Rightarrow> (cell \<times> nat) list) \<Rightarrow> cell list \<Rightarrow> table \<Rightarrow> state
      \<Rightarrow> error + metrics \<times> state" where
  "run srt selected_cities csv s0 =
     and_then (sidebar selected_cities (cleaning (load_data csv s0))) (\<lambda>s1.
     and_then (compute_metrics (frame s1)) (\<lambda>m.
     let s2 = cuisine_block srt (city_block srt s1) in
     and_then (fig3 (frame s2)) (\<lambda>f3.
     and_then (fig4 (frame s2)) (\<lambda>f4.
     and_then (fig5 (frame s2)) (\<lambda>f5.
     and_then (price_block s2) (\<lambda>s3.
     and_then (fig7 (frame s3)) (\<lambda>f7. Inr (m, s3))))))))"

section \<open>The stages in the words of their description\<close>

text \<open>
  Deduplication as the description has it: a row stays exactly when no earlier row carries
  its key. A row is dropped by the second cleaning step when a required column that the
  table has is missing in it.
\<close>

definition first_seen_rows :: "string \<Rightarrow> row list \<Rightarrow> row list" where
  "first_seen_rows k rs =
     map (\<lambda>i. rs ! i)
       (filter (\<lambda>i. cell_of (rs ! i) k \<notin> set (map (\<lambda>r. cell_of r k) (take i rs)))
          [0..<length rs])"

definition missing_required :: "table \<Rightarrow> row \<Rightarrow> bool" where
  "missing_required df r =
     list_ex (\<lambda>c. c \<in> set (columns df) \<and> cell_of r c = NaN) required_columns"

text \<open>The distinct values of a list in the order of their first occurrence.\<close>

definition first_occurrences :: "'a list \<Rightarrow> 'a list" where
  "first_occurrences xs = rev (remdups (rev xs))"

text \<open>
  The group keys of a table: the distinct values of column \<open>g\<close> that are not missing, in the
  order of their first occurrence.
\<close>

definition group_keys :: "table \<Rightarrow> string \<Rightarrow> cell list" where
  "group_keys df g =
     first_occurrences (filter (\<lambda>k. k \<noteq> NaN) (map (\<lambda>r. cell_of r g) (rows df)))"

text \<open>The values of the column \<open>v\<close> in the rows whose key in column \<open>g\<close> is \<open>k\<close>.\<close>

definition group_values :: "table \<Rightarrow> string \<Rightarrow> string \<Rightarrow> cell \<Rightarrow> cell list" where
  "group_values df g v k = map (\<lambda>r. cell_of r v) (filter (\<lambda>r. cell_of r g = k) (rows df))"

text \<open>The sum and the number of the numbers paired with key \<open>k\<close>.\<close>

definition group_total :: "(cell \<times> cell) list \<Rightarrow> cell \<Rightarrow> rat \<times> nat" where
  "group_total kxs k =
     (let qs = numbers (map snd (filter (\<lambda>p. fst p = k) kxs)) in (sum_list qs, length qs))"

section \<open>Sample tables\<close>

definition restaurants :: table where
  "restaurants =
     \<lparr>columns = [''restaurant_id'', ''city'', ''cuisines'', ''aggregate_rating'', ''votes'',
                 ''price_range''],
      rows =
        [[(''restaurant_id'', Num 1), (''city'', Str ''Pune''), (''cuisines'', Str ''Thai''),
          (''aggregate_rating'', Num 4), (''votes'', Num 10), (''price_range'', Num 2)],
         [(''restaurant_id'', Num 1), (''city'', Str ''Pune''), (''cuisines'', Str ''Thai''),
          (''aggregate_rating'', Num 4), (''votes'', Num 10), (''price_range'', Num 2)],
         [(''restaurant_id'', Num 2), (''city'', NaN), (''cuisines'', Str ''Cafe''),
          (''aggregate_rating'', Num 5), (''votes'', Num 7), (''price_range'', NaN)],
         [(''restaurant_id'', Num 3), (''city'', Str ''Agra''), (''cuisines'', Str ''Cafe''),
          (''aggregate_rating'', Num 3), (''votes'', NaN), (''price_range'', Num 1)],
         [(''restaurant_id'', Num 4), (''city'', Str ''Pune''), (''cuisines'', Str ''Cafe''),
          (''aggregate_rating'', Num 2), (''votes'', Num 4), (''price_range'', Num 2)]]\<rparr>"

definition no_rating :: table where
  "no_rating =
     \<lparr>columns = [''city'', ''votes''],
      rows = [[(''city'', Str ''Pune''), (''votes'', Num 10)]]\<rparr>"

definition no_city :: table where
  "no_city =
     \<lparr>columns = [''aggregate_rating''],
      rows = [[(''aggregate_rating'', Num 4)]]\<rparr>"

definition priced :: table where
  "priced =
     \<lparr>columns = [''price_range'', ''aggregate_rating''],
      rows =
        [[(''price_range'', Num 2), (''aggregate_rating'', Num 4)],
         [(''price_range'', Num 1), (''aggregate_rating'', Num 3)],
         [(''price_range'', Num 2), (''aggregate_rating'', Num 5)]]\<rparr>"

definition empty_costs :: table where
  "empty_costs = \<lparr>columns = [''aggregate_rating'', ''average_cost_for_two''], rows = []\<rparr>"

definition no_cuisines :: table where
  "no_cuisines =
     \<lparr>columns = [''aggregate_rating'', ''average_cost_for_two''],
      rows = [[(''aggregate_rating'', Num 4), (''average_cost_for_two'', Num 500)]]\<rparr>"

definition start :: state where
  "start = \<lparr>heap = [], df_ref = 0, cache = None\<rparr>"

definition loaded :: state where
  "loaded = load_data restaurants start"


section \<open>Properties of the cleaning block\<close>

lemma subseq_drop_dups: "subseq (drop_dups k seen rs) rs"
  by (induction rs arbitrary: seen) auto

lemma keys_drop_dups:
  "r \<in> set (drop_dups k seen rs) \<Longrightarrow> cell_of r k \<notin> set seen"
proof (induction rs arbitrary: seen)
  case Nil
  then show ?case by simp
next
  case (Cons a rs)
  show ?case
  proof (cases "cell_of a k \<in> set seen")
    case True
    with Cons show ?thesis by simp
  next
    case False
    with Cons.prems have "r = a \<or> r \<in> set (drop_dups k (cell_of a k # seen) rs)" by simp
    then show ?thesis
    proof
      assume "r = a" with False show ?thesis by simp
    next
      assume "r \<in> set (drop_dups k (cell_of a k # seen) rs)"
      from Cons.IH [OF this] show ?thesis by simp
    qed
  qed
qed

lemma distinct_drop_dups:
  "distinct (map (\<lambda>r. cell_of r k) (drop_dups k seen rs))"
proof (induction rs arbitrary: seen)
  case Nil
  show ?case by simp
next
  case (Cons r rs)
  have "cell_of r k \<notin> set (map (\<lambda>r. cell_of r k) (drop_dups k (cell_of r k # seen) rs))"
    using keys_drop_dups [of _ k "cell_of r k # seen" rs] by fastforce
  with Cons show ?case by simp
qed

lemma drop_dups_id:
  "distinct (map (\<lambda>r. cell_of r k) rs) \<Longrightarrow>
   (\<forall>r \<in> set rs. cell_of r k \<notin> set seen) \<Longrightarrow> drop_dups k seen rs = rs"
proof (induction rs arbitrary: seen)
  case Nil
  show ?case by simp
next
  case (Cons a rs)
  have "\<forall>r \<in> set rs. cell_of r k \<notin> set (cell_of a k # seen)"
    using Cons.prems by (auto simp: image_iff)
  moreover have "distinct (map (\<lambda>r. cell_of r k) rs)"
    using Cons.prems by simp
  ultimately have "drop_dups k (cell_of a k # seen) rs = rs"
    by (rule Cons.IH [rotated])
  then show ?case using Cons.prems by simp
qed

lemma drop_dups_filter_idem:
  "drop_dups k [] (filter P (drop_dups k [] rs)) = filter P (drop_dups k [] rs)"
  by (rule drop_dups_id) (simp_all add: distinct_map_filter distinct_drop_dups)

lemma columns_clean: "columns (clean df) = columns df"
  by (simp add: clean_def drop_duplicates_def dropna_def Let_def)

lemma drop_cols_cong: "columns a = columns b \<Longrightarrow> drop_cols a = drop_cols b"
  by (simp add: drop_cols_def)

lemma rows_clean:
  "rows (clean df) =
     filter (\<lambda>r. list_all (\<lambda>c. cell_of r c \<noteq> NaN) (drop_cols df))
       (if ''restaurant_id'' \<in> set (columns df) then drop_dups ''restaurant_id'' [] (rows df)
        else rows df)"
  by (simp add: clean_def drop_duplicates_def dropna_def Let_def drop_cols_def)

text \<open>
  C8. Cleaning is idempotent: cleaning a cleaned table changes nothing, for every table.
\<close>

theorem clean_idempotent: "clean (clean df) = clean df"
proof -
  have c: "columns (clean (clean df)) = columns (clean df)"
    by (simp add: columns_clean)
  have d: "drop_cols (clean df) = drop_cols df"
    by (rule drop_cols_cong) (simp add: columns_clean)
  have r: "rows (clean (clean df)) = rows (clean df)"
    unfolding rows_clean [of "clean df"] d columns_clean
    unfolding rows_clean [of df]
    by (simp add: drop_dups_filter_idem)
  have m: "table.more (clean (clean df)) = table.more (clean df)"
    by (simp add: clean_def drop_duplicates_def dropna_def Let_def)
  show ?thesis
    using c r m by (rule table.equality)
qed


lemma drop_dups_index:
  "drop_dups k seen rs =
     map (\<lambda>i. rs ! i)
       (filter (\<lambda>i. cell_of (rs ! i) k \<notin> set seen \<union> set (map (\<lambda>r. cell_of r k) (take i rs)))
          [0..<length rs])"
proof (induction rs arbitrary: seen)
  case Nil
  show ?case by simp
next
  case (Cons r rs)
  let ?key = "\<lambda>r. cell_of r k"
  have upt: "[0..<length (r # rs)] = 0 # map Suc [0..<length rs]"
    by (simp add: upt_conv_Cons map_Suc_upt del: upt_Suc)
  have tl: "map (\<lambda>i. (r # rs) ! i)
              (filter (\<lambda>i. ?key ((r # rs) ! i) \<notin> set seen \<union> set (map ?key (take i (r # rs))))
                 (map Suc [0..<length rs]))
            = map (\<lambda>i. rs ! i)
              (filter (\<lambda>i. ?key (rs ! i) \<notin> set (?key r # seen) \<union> set (map ?key (take i rs)))
                 [0..<length rs])"
    by (simp add: filter_map comp_def conj_ac)
  show ?case
  proof (cases "?key r \<in> set seen")
    case True
    have "(\<lambda>i. ?key (rs ! i) \<notin> set (?key r # seen) \<union> set (map ?key (take i rs)))
            = (\<lambda>i. ?key (rs ! i) \<notin> set seen \<union> set (map ?key (take i rs)))"
      using True by auto
    with True tl show ?thesis
      unfolding upt by (simp add: Cons.IH [of seen])
  next
    case False
    with tl show ?thesis
      unfolding upt by (simp add: Cons.IH [of "?key r # seen"])
  qed
qed

lemma drop_dups_first_seen: "drop_dups k [] rs = first_seen_rows k rs"
  by (simp add: drop_dups_index first_seen_rows_def)



lemma subseq_first_seen: "subseq (first_seen_rows k rs) rs"
  unfolding drop_dups_first_seen [symmetric] by (rule subseq_drop_dups)

lemma missing_required_iff:
  "(\<not> missing_required df r) = list_all (\<lambda>c. cell_of r c \<noteq> NaN) (drop_cols df)"
  by (auto simp: missing_required_def drop_cols_def list_all_iff list_ex_iff)

text \<open>
  C9. Cleaning keeps, when the table has the key column, exactly the first-seen row of every
  key value, in the order of the input; of these it drops the rows with a missing value in
  a required column that the table has, required columns that the table lacks playing no
  part. The result is a subsequence of the input rows: cleaning never adds a row.
\<close>

theorem clean_spec:
  "rows (clean df)
     = filter (\<lambda>r. \<not> missing_required df r)
         (if ''restaurant_id'' \<in> set (columns df)
          then first_seen_rows ''restaurant_id'' (rows df) else rows df)
   \<and> subseq (first_seen_rows ''restaurant_id'' (rows df)) (rows df)
   \<and> columns (clean df) = columns df
   \<and> subseq (rows (clean df)) (rows df)
   \<and> length (rows (clean df)) \<le> length (rows df)"
proof -
  have r: "rows (clean df)
     = filter (\<lambda>r. \<not> missing_required df r)
         (if ''restaurant_id'' \<in> set (columns df)
          then first_seen_rows ''restaurant_id'' (rows df) else rows df)"
    by (simp add: rows_clean missing_required_iff drop_dups_first_seen)
  have s: "subseq (rows (clean df)) (rows df)"
    unfolding r
    by (auto intro: subseq_order.trans [OF subseq_filter_left] subseq_first_seen)
  from r s show ?thesis
    by (simp add: subseq_first_seen columns_clean subseq_same_length list_emb_length)
qed

theorem clean_spec_witness:
  "rows (clean restaurants)
     = [rows restaurants ! 0, rows restaurants ! 3, rows restaurants ! 4]
   \<and> first_seen_rows ''restaurant_id'' (rows restaurants)
     = [rows restaurants ! 0, rows restaurants ! 2, rows restaurants ! 3, rows restaurants ! 4]
   \<and> subseq (rows (clean restaurants)) (rows restaurants)"
proof -
  have f: "first_seen_rows ''restaurant_id'' (rows restaurants)
     = [rows restaurants ! 0, rows restaurants ! 2, rows restaurants ! 3, rows restaurants ! 4]"
    by (simp add: first_seen_rows_def restaurants_def cell_of_def upt_rec)
  have c: "''restaurant_id'' \<in> set (columns restaurants)" by (simp add: restaurants_def)
  have m: "filter (\<lambda>r. \<not> missing_required restaurants r)
             [rows restaurants ! 0, rows restaurants ! 2, rows restaurants ! 3, rows restaurants ! 4]
           = [rows restaurants ! 0, rows restaurants ! 3, rows restaurants ! 4]"
    by (simp add: missing_required_def required_columns_def restaurants_def cell_of_def)
  note t = clean_spec [of restaurants]
  from t have r: "rows (clean restaurants)
     = filter (\<lambda>r. \<not> missing_required restaurants r)
         (first_seen_rows ''restaurant_id'' (rows restaurants))"
    by (simp only: c if_True)
  have r': "rows (clean restaurants)
     = [rows restaurants ! 0, rows restaurants ! 3, rows restaurants ! 4]"
    unfolding r f m by (rule refl)
  from t have s: "subseq (rows (clean restaurants)) (rows restaurants)"
    by blast
  from r' f s show ?thesis by blast
qed

section \<open>Properties of the filter\<close>

lemma mask_filter:
  "map fst (filter snd (zip rs (map (\<lambda>r. P r) rs))) = filter P rs"
  by (induction rs) auto

lemma filter_by_values_rows:
  "col \<in> set (columns df) \<Longrightarrow> selected \<noteq> [] \<Longrightarrow>
   rows (filter_by_values df col selected)
     = filter (\<lambda>r. cell_of r col \<in> set selected) (rows df)"
proof -
  assume a: "col \<in> set (columns df)" "selected \<noteq> []"
  have "isin (map (\<lambda>r. cell_of r col) (rows df)) selected
          = map (\<lambda>r. cell_of r col \<in> set selected) (rows df)"
    by (simp add: isin_def)
  then show ?thesis
    using a by (simp add: filter_by_values_def mask_filter)
qed

text \<open>
  C7. Filtering with an empty selection returns the table as it is, for every table and
  every column: an empty selection means no restriction.
\<close>

theorem filter_empty_selection: "filter_by_values df col [] = df"
  by (simp add: filter_by_values_def)

text \<open>
  C6. With a selection that is not empty, every row that the filter returns has its value
  of the filter column among the selected values (a table without the column has no such
  values and comes back as it is), and the returned rows are a subsequence of the rows of
  the input, in their order; so filtering never adds a row.
\<close>

theorem filter_by_values_sound:
  assumes "selected \<noteq> []"
  shows "(col \<in> set (columns df) \<longrightarrow>
            (\<forall>r \<in> set (rows (filter_by_values df col selected)). cell_of r col \<in> set selected))
         \<and> subseq (rows (filter_by_values df col selected)) (rows df)
         \<and> length (rows (filter_by_values df col selected)) \<le> length (rows df)"
proof (cases "col \<in> set (columns df)")
  case True
  have r: "rows (filter_by_values df col selected)
             = filter (\<lambda>r. cell_of r col \<in> set selected) (rows df)"
    using True assms by (rule filter_by_values_rows)
  show ?thesis
    unfolding r by simp
next
  case False
  then have "filter_by_values df col selected = df"
    by (simp add: filter_by_values_def)
  with False show ?thesis by simp
qed

lemma rows_filter_restaurants:
  "rows (filter_by_values restaurants ''city'' [Str ''Pune''])
     = [rows restaurants ! 0, rows restaurants ! 1, rows restaurants ! 4]"
  by (simp add: filter_by_values_def isin_def restaurants_def cell_of_def)

theorem filter_by_values_sound_witness:
  "[Str ''Pune''] \<noteq> [] \<and> ''city'' \<in> set (columns restaurants)
   \<and> list_all (\<lambda>r. cell_of r ''city'' \<in> set [Str ''Pune''])
        (rows (filter_by_values restaurants ''city'' [Str ''Pune'']))
   \<and> subseq (rows (filter_by_values restaurants ''city'' [Str ''Pune''])) (rows restaurants)
   \<and> length (rows (filter_by_values restaurants ''city'' [Str ''Pune''])) = 3"
proof -
  have h: "[Str ''Pune''] \<noteq> []" by simp
  have c: "''city'' \<in> set (columns restaurants)" by (simp add: restaurants_def)
  show ?thesis
    using filter_by_values_sound [OF h, of "''city''" restaurants] c
    by (simp add: list_all_iff rows_filter_restaurants)
qed

section \<open>Grouped means\<close>

lemma numbers_append: "numbers (xs @ ys) = numbers xs @ numbers ys"
  by (induction xs rule: numbers.induct) auto

lemma first_occurrences_snoc:
  "first_occurrences (xs @ [x])
     = (if x \<in> set xs then first_occurrences xs else first_occurrences xs @ [x])"
  by (simp add: first_occurrences_def)

lemma first_occurrences_Nil: "first_occurrences [] = []"
  by (simp add: first_occurrences_def)

lemma distinct_first_occurrences: "distinct (first_occurrences xs)"
  by (simp add: first_occurrences_def)

lemma set_first_occurrences: "set (first_occurrences xs) = set xs"
  by (simp add: first_occurrences_def)

lemma group_add_map:
  "distinct ks \<Longrightarrow>
   group_add k x (map (\<lambda>j. (j, t j)) ks)
     = (if k \<in> set ks then map (\<lambda>j. (j, if j = k then add_value x (t j) else t j)) ks
        else map (\<lambda>j. (j, t j)) ks @ [(k, add_value x (0, 0))])"
  by (induction ks) auto

lemma group_total_snoc:
  "group_total (kxs @ [(k, x)]) j
     = (if j = k then add_value x (group_total kxs j) else group_total kxs j)"
  by (cases x) (simp_all add: group_total_def numbers_append add_value_def Let_def)

lemma group_total_absent: "j \<notin> fst ` set kxs \<Longrightarrow> group_total kxs j = (0, 0)"
proof -
  assume "j \<notin> fst ` set kxs"
  then have "filter (\<lambda>p. fst p = j) kxs = []"
    by (auto simp: filter_empty_conv)
  then show ?thesis by (simp add: group_total_def)
qed

lemma group_sums_snoc:
  "group_sums (kxs @ [(k, x)])
     = (if k = NaN then group_sums kxs else group_add k x (group_sums kxs))"
  by (simp add: group_sums_def)

lemma group_sums_eq:
  "group_sums kxs
     = map (\<lambda>j. (j, group_total kxs j))
         (first_occurrences (filter (\<lambda>k. k \<noteq> NaN) (map fst kxs)))"
proof (induction kxs rule: rev_induct)
  case Nil
  show ?case by (simp add: group_sums_def first_occurrences_Nil)
next
  case (snoc p kxs)
  obtain k x where p: "p = (k, x)" by (cases p)
  let ?ks = "first_occurrences (filter (\<lambda>k. k \<noteq> NaN) (map fst kxs))"
  have ks: "set ?ks = {j \<in> fst ` set kxs. j \<noteq> NaN}"
    by (auto simp: set_first_occurrences)
  show ?case
  proof (cases "k = NaN")
    case True
    have "map (\<lambda>j. (j, group_total (kxs @ [(k, x)]) j)) ?ks
            = map (\<lambda>j. (j, group_total kxs j)) ?ks"
      using True ks by (intro map_cong) (auto simp: group_total_snoc)
    with True snoc show ?thesis
      by (simp add: p group_sums_snoc)
  next
    case False
    show ?thesis
    proof (cases "k \<in> set ?ks")
      case True
      then have m: "k \<in> set (filter (\<lambda>k. k \<noteq> NaN) (map fst kxs))"
        by (simp add: set_first_occurrences)
      have "group_add k x (map (\<lambda>j. (j, group_total kxs j)) ?ks)
              = map (\<lambda>j. (j, group_total (kxs @ [(k, x)]) j)) ?ks"
        using True
        by (simp add: group_add_map distinct_first_occurrences group_total_snoc)
      with False snoc m show ?thesis
        by (simp add: p group_sums_snoc first_occurrences_snoc)
    next
      case n: False
      then have m: "k \<notin> set (filter (\<lambda>k. k \<noteq> NaN) (map fst kxs))"
        by (simp add: set_first_occurrences)
      with False have a: "k \<notin> fst ` set kxs" by auto
      have e: "map (\<lambda>j. (j, group_total (kxs @ [(k, x)]) j)) ?ks
                 = map (\<lambda>j. (j, group_total kxs j)) ?ks"
        using n by (intro map_cong) (auto simp: group_total_snoc)
      have "group_add k x (map (\<lambda>j. (j, group_total kxs j)) ?ks)
              = map (\<lambda>j. (j, group_total (kxs @ [(k, x)]) j)) (?ks @ [k])"
        using n unfolding map_append e
        by (simp add: group_add_map distinct_first_occurrences group_total_snoc
            group_total_absent [OF a])
      with False snoc m show ?thesis
        by (simp add: p group_sums_snoc first_occurrences_snoc)
    qed
  qed
qed

lemma insort_key_map_pair:
  "insort_key (\<lambda>g. f (fst g)) (k, t k) (map (\<lambda>j. (j, t j)) ys)
     = map (\<lambda>j. (j, t j)) (insort_key f k ys)"
  by (induction ys) auto

lemma sort_key_map_pair:
  "sort_key (\<lambda>g. f (fst g)) (map (\<lambda>j. (j, t j)) ks) = map (\<lambda>j. (j, t j)) (sort_key f ks)"
  by (induction ks) (simp_all add: sort_key_simps insort_key_map_pair)

lemma zip_columns:
  "zip (map f rs) (map h rs) = map (\<lambda>r. (f r, h r)) rs"
  by (induction rs) auto

lemma group_mean_total:
  "group_mean (k, group_total (map (\<lambda>r. (cell_of r g, cell_of r v)) (rows df)) k)
     = (k, nanmean (numbers (group_values df g v k)))"
proof -
  have "map snd (filter (\<lambda>p. fst p = k) (map (\<lambda>r. (cell_of r g, cell_of r v)) (rows df)))
          = group_values df g v k"
    by (simp add: group_values_def filter_map comp_def)
  then show ?thesis
    by (simp add: group_mean_def group_total_def nanmean_def Let_def)
qed

lemma grouped_mean_eq:
  assumes "g \<in> set (columns df)" "v \<in> set (columns df)"
    and "\<not> list_ex is_text (map (\<lambda>r. cell_of r v) (rows df))"
  shows "grouped_mean df g v
           = Inr (map (\<lambda>k. (k, nanmean (numbers (group_values df g v k))))
                    (sort_key cell_key (group_keys df g)))"
proof -
  have "map fst (map (\<lambda>r. (cell_of r g, cell_of r v)) (rows df)) = map (\<lambda>r. cell_of r g) (rows df)"
    by simp
  then have "group_sums (zip (map (\<lambda>r. cell_of r g) (rows df)) (map (\<lambda>r. cell_of r v) (rows df)))
          = map (\<lambda>j. (j, group_total (map (\<lambda>r. (cell_of r g, cell_of r v)) (rows df)) j))
              (group_keys df g)"
    unfolding zip_columns group_sums_eq group_keys_def by (simp add: comp_def)
  then show ?thesis
    using assms
    by (simp add: grouped_mean_def getitem_def and_then_def sort_key_map_pair comp_def
        group_mean_total)
qed

lemma grouped_mean_Inr:
  assumes "grouped_mean df g v = Inr out"
  shows "g \<in> set (columns df) \<and> v \<in> set (columns df)
         \<and> \<not> list_ex is_text (map (\<lambda>r. cell_of r v) (rows df))"
  using assms
  by (auto simp: grouped_mean_def getitem_def and_then_def split: if_splits)

lemma inj_cell_key: "inj cell_key"
  by (auto simp: inj_on_def cell_key_def split: cell.splits)

lemma set_group_keys: "set (group_keys df g) = set (map (\<lambda>r. cell_of r g) (rows df)) - {NaN}"
  by (auto simp: group_keys_def set_first_occurrences)

lemma strict_sorted_keys:
  "sorted_wrt (\<lambda>a b. cell_key a < cell_key b) (sort_key cell_key (group_keys df g))"
proof -
  let ?ks = "sort_key cell_key (group_keys df g)"
  have "distinct ?ks" by (simp add: group_keys_def distinct_first_occurrences)
  then have "distinct (map cell_key ?ks)"
    by (simp add: distinct_map inj_on_subset [OF inj_cell_key])
  moreover have "sorted (map cell_key ?ks)" by (rule sorted_sort_key)
  ultimately have "sorted_wrt (<) (map cell_key ?ks)"
    by (simp add: strict_sorted_iff)
  then show ?thesis by (simp add: sorted_wrt_map)
qed

text \<open>
  C4, as the script has it. For a table that has the group column and the value column, the
  latter holding no text, the grouped mean returns one row for every distinct value of the
  group column that is not missing; each row carries the mean of the numbers of the value
  column in the rows of its key (NaN when there is none); and the rows come in ascending
  order of the key.
\<close>

theorem grouped_mean_by_key:
  assumes "g \<in> set (columns df)" "v \<in> set (columns df)"
    and "\<not> list_ex is_text (map (\<lambda>r. cell_of r v) (rows df))"
  shows "\<exists>out. grouped_mean df g v = Inr out
           \<and> distinct (map fst out)
           \<and> set (map fst out) = set (map (\<lambda>r. cell_of r g) (rows df)) - {NaN}
           \<and> (\<forall>k m. (k, m) \<in> set out \<longrightarrow> m = nanmean (numbers (group_values df g v k)))
           \<and> sorted_wrt (\<lambda>a b. cell_key a < cell_key b) (map fst out)"
proof -
  let ?out = "map (\<lambda>k. (k, nanmean (numbers (group_values df g v k))))
                (sort_key cell_key (group_keys df g))"
  have f: "map fst ?out = sort_key cell_key (group_keys df g)"
    by (simp add: comp_def)
  have "grouped_mean df g v = Inr ?out"
    using assms by (rule grouped_mean_eq)
  moreover have "distinct (map fst ?out)"
    unfolding f by (simp add: group_keys_def distinct_first_occurrences)
  moreover have "set (map fst ?out) = set (map (\<lambda>r. cell_of r g) (rows df)) - {NaN}"
    unfolding f by (simp add: set_group_keys)
  moreover have "\<forall>k m. (k, m) \<in> set ?out \<longrightarrow> m = nanmean (numbers (group_values df g v k))"
    by auto
  moreover have "sorted_wrt (\<lambda>a b. cell_key a < cell_key b) (map fst ?out)"
    unfolding f by (rule strict_sorted_keys)
  ultimately show ?thesis by blast
qed

lemma grouped_mean_priced:
  "grouped_mean priced ''price_range'' ''aggregate_rating''
     = Inr [(Num 1, Some 3), (Num 2, Some (9 / 2))]"
  by (simp add: grouped_mean_def priced_def getitem_def and_then_def cell_of_def is_text_def
      group_sums_def add_value_def sort_key_def cell_key_def group_mean_def)

text \<open>
  The rows of the grouped mean are not in the order in which the keys first occur: with the
  price ranges 2, 1, 2 the group of 1 comes first.
\<close>

theorem grouped_mean_order_counterexample:
  "grouped_mean priced ''price_range'' ''aggregate_rating''
     = Inr [(Num 1, Some 3), (Num 2, Some (9 / 2))]
   \<and> group_keys priced ''price_range'' = [Num 2, Num 1]"
  by (simp add: grouped_mean_priced)
     (simp add: group_keys_def first_occurrences_def priced_def cell_of_def)

theorem grouped_mean_by_key_witness:
  "''price_range'' \<in> set (columns priced) \<and> ''aggregate_rating'' \<in> set (columns priced)
   \<and> \<not> list_ex is_text (map (\<lambda>r. cell_of r ''aggregate_rating'') (rows priced))
   \<and> grouped_mean priced ''price_range'' ''aggregate_rating''
       = Inr [(Num 1, Some 3), (Num 2, Some (9 / 2))]
   \<and> nanmean (numbers (group_values priced ''price_range'' ''aggregate_rating'' (Num 2)))
       = Some (9 / 2)"
proof -
  have a: "''price_range'' \<in> set (columns priced)" by (simp add: priced_def)
  have b: "''aggregate_rating'' \<in> set (columns priced)" by (simp add: priced_def)
  have c: "\<not> list_ex is_text (map (\<lambda>r. cell_of r ''aggregate_rating'') (rows priced))"
    by (simp add: priced_def cell_of_def is_text_def)
  from grouped_mean_by_key [OF a b c] obtain out where
    o: "grouped_mean priced ''price_range'' ''aggregate_rating'' = Inr out"
    and m: "\<forall>k m. (k, m) \<in> set out \<longrightarrow>
              m = nanmean (numbers (group_values priced ''price_range'' ''aggregate_rating'' k))"
    by blast
  from o have e: "out = [(Num 1, Some 3), (Num 2, Some (9 / 2))]"
    by (simp add: grouped_mean_priced)
  from m e have "nanmean (numbers (group_values priced ''price_range'' ''aggregate_rating'' (Num 2)))
                   = Some (9 / 2)"
    by simp
  with a b c o e show ?thesis by simp
qed


section \<open>Frequency tables and missing keys\<close>

lemma tally_map:
  "distinct ks \<Longrightarrow>
   tally x (map (\<lambda>j. (j, t j)) ks)
     = (if x \<in> set ks then map (\<lambda>j. (j, if j = x then Suc (t j) else t j)) ks
        else map (\<lambda>j. (j, t j)) ks @ [(x, 1)])"
  by (induction ks) auto

lemma value_count_snoc:
  "value_count (xs @ [x]) = (if x = NaN then value_count xs else tally x (value_count xs))"
  by (simp add: value_count_def)

lemma value_count_eq:
  "value_count xs
     = map (\<lambda>k. (k, count_list xs k)) (first_occurrences (filter (\<lambda>k. k \<noteq> NaN) xs))"
proof (induction xs rule: rev_induct)
  case Nil
  show ?case by (simp add: value_count_def first_occurrences_Nil)
next
  case (snoc x xs)
  let ?ks = "first_occurrences (filter (\<lambda>k. k \<noteq> NaN) xs)"
  show ?case
  proof (cases "x = NaN")
    case True
    have "map (\<lambda>k. (k, count_list (xs @ [x]) k)) ?ks = map (\<lambda>k. (k, count_list xs k)) ?ks"
      using True by (intro map_cong) (auto simp: set_first_occurrences)
    with True snoc show ?thesis
      by (simp add: value_count_snoc)
  next
    case False
    show ?thesis
    proof (cases "x \<in> set xs")
      case True
      with False have "x \<in> set ?ks" by (simp add: set_first_occurrences)
      then have "tally x (map (\<lambda>k. (k, count_list xs k)) ?ks)
                   = map (\<lambda>k. (k, count_list (xs @ [x]) k)) ?ks"
        by (simp add: tally_map distinct_first_occurrences)
      with False True snoc show ?thesis
        by (simp add: value_count_snoc first_occurrences_snoc)
    next
      case n: False
      then have m: "x \<notin> set ?ks" by (simp add: set_first_occurrences)
      have e: "map (\<lambda>k. (k, count_list (xs @ [x]) k)) ?ks = map (\<lambda>k. (k, count_list xs k)) ?ks"
        using m by (intro map_cong) auto
      have "tally x (map (\<lambda>k. (k, count_list xs k)) ?ks)
              = map (\<lambda>k. (k, count_list (xs @ [x]) k)) (?ks @ [x])"
        using m n unfolding map_append e
        by (simp add: tally_map distinct_first_occurrences)
      with False n snoc show ?thesis
        by (simp add: value_count_snoc first_occurrences_snoc)
    qed
  qed
qed

lemma count_list_rows:
  "count_list (map (\<lambda>r. cell_of r col) rs) k = length (filter (\<lambda>r. cell_of r col = k) rs)"
  by (induction rs) auto

lemma value_count_entries:
  assumes "(k, c) \<in> set (value_count xs)"
  shows "k \<noteq> NaN \<and> k \<in> set xs \<and> c = count_list xs k"
  using assms by (auto simp: value_count_eq set_first_occurrences)

lemma top_n_frequency_entries:
  assumes perm: "\<And>kcs. mset (srt kcs) = mset kcs"
    and out: "top_n_frequency srt df col n = Some out"
    and kc: "(k, c) \<in> set out"
  shows "k \<noteq> NaN \<and> c = length (filter (\<lambda>r. cell_of r col = k) (rows df))"
proof -
  let ?xs = "map (\<lambda>r. cell_of r col) (rows df)"
  from out have "out = take n (srt (value_count ?xs))"
    by (simp add: top_n_frequency_def head_def value_counts_def split: if_splits)
  with kc have "(k, c) \<in> set (srt (value_count ?xs))"
    by (auto dest: in_set_takeD)
  moreover have "set (srt (value_count ?xs)) = set (value_count ?xs)"
    using perm by (rule mset_eq_setD)
  ultimately have "(k, c) \<in> set (value_count ?xs)" by simp
  then show ?thesis
    by (auto dest: value_count_entries simp: count_list_rows)
qed

text \<open>
  C10. Whatever the sorting routine, as long as it returns the entries it is given: no pair
  of the top-n frequency table has the missing value as its value, and the count of a value
  is the number of rows that carry it, so rows with a missing cell are counted nowhere; and
  the grouped mean has no group for the missing key.
\<close>

theorem missing_keys_excluded:
  assumes "\<And>kcs. mset (srt kcs) = mset kcs"
  shows "(\<forall>out k c. top_n_frequency srt df col n = Some out \<longrightarrow> (k, c) \<in> set out \<longrightarrow>
            k \<noteq> NaN \<and> c = length (filter (\<lambda>r. cell_of r col = k) (rows df)))
         \<and> (\<forall>out. grouped_mean df g v = Inr out \<longrightarrow> NaN \<notin> set (map fst out))"
proof -
  have "NaN \<notin> set (map fst out)" if o: "grouped_mean df g v = Inr out" for out
  proof -
    from grouped_mean_Inr [OF o] have "grouped_mean df g v
           = Inr (map (\<lambda>k. (k, nanmean (numbers (group_values df g v k))))
                    (sort_key cell_key (group_keys df g)))"
      by (intro grouped_mean_eq) simp_all
    with o have "map fst out = sort_key cell_key (group_keys df g)"
      by (auto simp: comp_def)
    then show ?thesis by (simp add: set_group_keys)
  qed
  then show ?thesis
    using top_n_frequency_entries [OF assms] by blast
qed

lemma mset_insertion_desc: "mset (insertion_desc kcs) = mset kcs"
  by (simp add: insertion_desc_def)

lemma city_count_restaurants:
  "city_count insertion_desc restaurants = Some [(Str ''Pune'', 3), (Str ''Agra'', 1)]"
  by (simp add: city_count_def top_n_frequency_def head_def value_counts_def value_count_def
      insertion_desc_def sort_key_def restaurants_def cell_of_def)

lemma grouped_mean_restaurants:
  "grouped_mean restaurants ''price_range'' ''aggregate_rating''
     = Inr [(Num 1, Some 3), (Num 2, Some (10 / 3))]"
  by (simp add: grouped_mean_def restaurants_def getitem_def and_then_def cell_of_def is_text_def
      group_sums_def add_value_def sort_key_def cell_key_def group_mean_def)

theorem missing_keys_excluded_witness:
  "mset (insertion_desc [(NaN, 1)]) = mset [(NaN, 1)]
   \<and> top_n_frequency insertion_desc restaurants ''city'' 10
       = Some [(Str ''Pune'', 3), (Str ''Agra'', 1)]
   \<and> (Str ''Pune'', 3) \<in> set [(Str ''Pune'', 3), (Str ''Agra'', 1 :: nat)]
   \<and> length (filter (\<lambda>r. cell_of r ''city'' = Str ''Pune'') (rows restaurants)) = 3
   \<and> length (filter (\<lambda>r. cell_of r ''city'' = NaN) (rows restaurants)) = 1
   \<and> grouped_mean restaurants ''price_range'' ''aggregate_rating''
       = Inr [(Num 1, Some 3), (Num 2, Some (10 / 3))]
   \<and> NaN \<notin> set (map fst [(Num 1, Some (3 :: rat)), (Num 2, Some (10 / 3))])
   \<and> cell_of (rows restaurants ! 2) ''price_range'' = NaN"
proof -
  note t = missing_keys_excluded [of insertion_desc restaurants "''city''" 10
      "''price_range''" "''aggregate_rating''", OF mset_insertion_desc]
  have c: "top_n_frequency insertion_desc restaurants ''city'' 10
             = Some [(Str ''Pune'', 3), (Str ''Agra'', 1)]"
    using city_count_restaurants by (simp add: city_count_def)
  from t c have p: "length (filter (\<lambda>r. cell_of r ''city'' = Str ''Pune'') (rows restaurants)) = 3"
    by auto
  from t grouped_mean_restaurants
  have g: "NaN \<notin> set (map fst [(Num 1, Some (3 :: rat)), (Num 2, Some (10 / 3))])"
    by blast
  have n: "length (filter (\<lambda>r. cell_of r ''city'' = NaN) (rows restaurants)) = 1"
    by (simp add: restaurants_def cell_of_def)
  have r: "cell_of (rows restaurants ! 2) ''price_range'' = NaN"
    by (simp add: restaurants_def cell_of_def)
  from c p g n r grouped_mean_restaurants show ?thesis
    by (simp add: mset_insertion_desc)
qed

text \<open>
  What the top-n frequency table has under every sorting routine that returns its entries by
  descending count: at most \<open>n\<close> pairs, counts that descend, and a sum of counts that does not
  exceed the number of rows. The order among equal counts is the routine's.
\<close>

lemma sum_list_take_le: "sum_list (take n (xs :: nat list)) \<le> sum_list xs"
proof -
  have "sum_list xs = sum_list (take n xs) + sum_list (drop n xs)"
    by (metis append_take_drop_id sum_list_append)
  then show ?thesis by simp
qed

lemma sum_value_count: "sum_list (map snd (value_count xs)) = length (filter (\<lambda>k. k \<noteq> NaN) xs)"
proof -
  let ?ys = "filter (\<lambda>k. k \<noteq> NaN) xs"
  have c: "count_list xs k = count_list ?ys k" if "k \<noteq> NaN" for k
    using that by (induction xs) auto
  have "sum_list (map snd (value_count xs)) = sum_list (map (count_list xs) (first_occurrences ?ys))"
    by (simp add: value_count_eq comp_def)
  also have "\<dots> = sum (count_list xs) (set ?ys)"
    by (simp add: sum_list_distinct_conv_sum_set distinct_first_occurrences
        set_first_occurrences)
  also have "\<dots> = sum (count_list ?ys) (set ?ys)"
    by (rule sum.cong) (auto simp: c)
  also have "\<dots> = length ?ys"
    by (rule sum_count_set) simp_all
  finally show ?thesis .
qed

lemma top_n_frequency_bounds:
  assumes perm: "\<And>kcs. mset (srt kcs) = mset kcs"
    and desc: "\<And>kcs. sorted_wrt (\<lambda>a b. snd b \<le> snd a) (srt kcs)"
    and out: "top_n_frequency srt df col n = Some out"
  shows "length out \<le> n \<and> sorted_wrt (\<lambda>a b. snd b \<le> snd a) out
         \<and> sum_list (map snd out) \<le> length (rows df)"
proof -
  let ?xs = "map (\<lambda>r. cell_of r col) (rows df)"
  from out have o: "out = take n (srt (value_count ?xs))"
    by (simp add: top_n_frequency_def head_def value_counts_def split: if_splits)
  have "sum_list (map snd out) \<le> sum_list (map snd (srt (value_count ?xs)))"
    unfolding o take_map [symmetric] by (rule sum_list_take_le)
  also have "\<dots> = sum_mset (image_mset snd (mset (srt (value_count ?xs))))"
    by (metis mset_map sum_mset_sum_list)
  also have "\<dots> = sum_list (map snd (value_count ?xs))"
    unfolding perm by (metis mset_map sum_mset_sum_list)
  also have "\<dots> \<le> length (rows df)"
    by (simp add: sum_value_count le_trans [OF length_filter_le])
  finally have "sum_list (map snd out) \<le> length (rows df)" .
  moreover have "sorted_wrt (\<lambda>a b. snd b \<le> snd a) out"
    unfolding o using desc by (rule sorted_wrt_take)
  ultimately show ?thesis by (simp add: o)
qed

section \<open>In place or not\<close>

lemma heap_cleaning:
  assumes "df_ref s < length (heap s)"
  shows "heap (cleaning s) = (heap s)[df_ref s := clean (frame s)]"
  using assms
  by (simp add: cleaning_def clean_def frame_def drop_duplicates_inplace_def dropna_inplace_def
      Let_def)

lemma df_ref_cleaning: "df_ref (cleaning s) = df_ref s"
  by (simp add: cleaning_def drop_duplicates_inplace_def dropna_inplace_def Let_def)

lemma cache_cleaning: "cache (cleaning s) = cache s"
  by (simp add: cleaning_def drop_duplicates_inplace_def dropna_inplace_def Let_def)

lemma sidebar_filter_applies:
  assumes "''city'' \<in> set (columns (frame s))" "sel \<noteq> []"
  shows "sidebar_filter sel s
           = s\<lparr>heap := heap s @ [filter_by_values (frame s) ''city'' sel],
               df_ref := length (heap s)\<rparr>"
  using assms by (simp add: sidebar_filter_def frame_def)

lemma sidebar_filter_skips:
  assumes "\<not> (''city'' \<in> set (columns (frame s)) \<and> sel \<noteq> [])"
  shows "sidebar_filter sel s = s"
  using assms by (auto simp: sidebar_filter_def frame_def)

lemma sidebar_filter_grows:
  "\<exists>new. heap (sidebar_filter sel s) = heap s @ new \<and> cache (sidebar_filter sel s) = cache s
     \<and> (df_ref s < length (heap s) \<longrightarrow>
          df_ref (sidebar_filter sel s) < length (heap (sidebar_filter sel s)))"
  by (simp add: sidebar_filter_def)

lemma counts_block_heap:
  "heap (counts_block name names counts s)
     = heap s @ (case counts of None \<Rightarrow> []
                 | Some kcs \<Rightarrow> [set_columns names (counts_frame name kcs)])"
  by (simp add: counts_block_def Let_def split: option.splits)

lemma counts_block_rest:
  "df_ref (counts_block name names counts s) = df_ref s
   \<and> cache (counts_block name names counts s) = cache s"
  by (simp add: counts_block_def Let_def split: option.splits)

lemma frame_counts_block:
  "df_ref s < length (heap s) \<Longrightarrow> frame (counts_block name names counts s) = frame s"
  by (simp add: frame_def counts_block_heap counts_block_rest nth_append)

lemma price_block_Inr:
  assumes "price_block s = Inr s'"
  shows "heap s' = heap s @ (case price_rating (frame s) of
                              Inr (Some kms) \<Rightarrow> [means_frame ''price_range'' ''aggregate_rating'' kms]
                            | _ \<Rightarrow> [])
         \<and> df_ref s' = df_ref s \<and> cache s' = cache s"
  using assms
  by (auto simp: price_block_def and_then_def split: sum.splits option.splits)

lemma run_Inr:
  assumes "run srt sel csv s0 = Inr (m, s')"
  shows "cache s' = Some (cached csv s0)
         \<and> (\<exists>new. heap s' = heap s0 @ [clean (cached csv s0)] @ new)
         \<and> compute_metrics (frame s') = Inr m"
proof -
  let ?l = "load_data csv s0"
  let ?c = "cleaning ?l"
  let ?f = "sidebar_filter sel ?c"
  let ?b = "cuisine_block srt (city_block srt ?f)"
  have wl: "df_ref ?l < length (heap ?l)" by (simp add: load_data_def Let_def)
  have fl: "frame ?l = cached csv s0" by (simp add: load_data_def Let_def frame_def)
  have hc: "heap ?c = heap s0 @ [clean (cached csv s0)]"
    using heap_cleaning [OF wl] fl by (simp add: load_data_def Let_def)
  have cc: "cache ?c = Some (cached csv s0)"
    by (simp add: cache_cleaning) (simp add: load_data_def Let_def)
  have wc: "df_ref ?c < length (heap ?c)"
    using wl by (simp add: df_ref_cleaning hc) (simp add: load_data_def Let_def)
  from sidebar_filter_grows [of sel ?c] wc obtain n1 where
    hf: "heap ?f = heap ?c @ n1" and cf: "cache ?f = cache ?c"
    and wf: "df_ref ?f < length (heap ?f)"
    by blast
  have wcity: "df_ref (city_block srt ?f) < length (heap (city_block srt ?f))"
    using wf by (simp add: city_block_def counts_block_heap counts_block_rest)
  have fb: "frame ?b = frame ?f"
    using wf wcity by (simp add: cuisine_block_def city_block_def frame_counts_block)
  obtain n2 where hb: "heap ?b = heap ?f @ n2"
    by (simp add: cuisine_block_def city_block_def counts_block_heap)
  have cb: "cache ?b = cache ?f" and db: "df_ref ?b = df_ref ?f"
    by (simp_all add: cuisine_block_def city_block_def counts_block_rest)
  from assms have m: "compute_metrics (frame ?f) = Inr m" and p: "price_block ?b = Inr s'"
    by (auto simp: run_def sidebar_def and_then_def Let_def split: sum.splits if_splits)
  from price_block_Inr [OF p] obtain n3 where
    hs: "heap s' = heap ?b @ n3" and ds: "df_ref s' = df_ref ?b" and cs: "cache s' = cache ?b"
    by blast
  have "frame s' = frame ?f"
    using wf by (simp add: frame_def hs ds hb db nth_append)
  with m have "compute_metrics (frame s') = Inr m" by simp
  moreover have "cache s' = Some (cached csv s0)"
    by (simp add: cs cb cf cc)
  moreover have "heap s' = heap s0 @ [clean (cached csv s0)] @ (n1 @ n2 @ n3)"
    by (simp add: hs hb hf hc)
  ultimately show ?thesis by blast
qed

lemma loaded_eq: "loaded = \<lparr>heap = [restaurants], df_ref = 0, cache = Some restaurants\<rparr>"
  by (simp add: loaded_def load_data_def cached_def start_def)

lemma rows_clean_restaurants: "length (rows (clean restaurants)) = 3"
  by (simp add: clean_def drop_duplicates_def dropna_def drop_cols_def required_columns_def
      restaurants_def cell_of_def)

text \<open>
  Not every stage returns a new table and leaves its input alone. After the cleaning block
  the object that held the five loaded rows holds three, \<^verbatim>\<open>df\<close> names the same object and
  no object was made; and the filter, given an empty selection, hands back the very state
  it was given.
\<close>

theorem cleaning_in_place_counterexample:
  "frame (cleaning loaded) \<noteq> frame loaded
   \<and> df_ref (cleaning loaded) = df_ref loaded
   \<and> length (heap (cleaning loaded)) = length (heap loaded)
   \<and> sidebar_filter [] loaded = loaded"
proof -
  have w: "df_ref loaded < length (heap loaded)" by (simp add: loaded_eq)
  have "frame (cleaning loaded) = clean restaurants"
    by (simp add: frame_def heap_cleaning [OF w] df_ref_cleaning) (simp add: loaded_eq)
  then have "length (rows (frame (cleaning loaded))) = 3"
    by (simp add: rows_clean_restaurants)
  moreover have "length (rows (frame loaded)) = 5"
    by (simp add: loaded_eq frame_def restaurants_def)
  ultimately have "frame (cleaning loaded) \<noteq> frame loaded" by auto
  moreover have "length (heap (cleaning loaded)) = length (heap loaded)"
    by (simp add: heap_cleaning [OF w])
  moreover have "sidebar_filter [] loaded = loaded"
    by (simp add: sidebar_filter_def)
  ultimately show ?thesis by (simp add: df_ref_cleaning)
qed

text \<open>
  C3, as the script has it. Cleaning works in place: the object that \<^verbatim>\<open>df\<close> names holds the
  cleaned table afterwards, every other object is as it was, no object is made. The filter,
  when the table has the city column and the selection is not empty, makes one new object
  holding the filtered table and binds \<^verbatim>\<open>df\<close> to it, the objects that existed staying as
  they were; otherwise it changes nothing at all. Each of the chart blocks for cities,
  cuisines and price ranges that runs makes one new object for its derived table and leaves
  the existing objects and \<^verbatim>\<open>df\<close> as they were. No stage touches the cached table. Over a
  whole run that ends without error: the objects that existed before are unchanged, the
  loaded object holds the cleaned table (so nothing but the cleaning changed it and nothing
  changed it after), everything else is new objects, the cache still holds the table it was
  given at load time, and the metrics are those of the table that \<^verbatim>\<open>df\<close> names at the end.
\<close>

theorem stages_and_their_tables:
  assumes "df_ref s < length (heap s)"
  shows "heap (cleaning s) = (heap s)[df_ref s := clean (frame s)]
         \<and> df_ref (cleaning s) = df_ref s \<and> cache (cleaning s) = cache s
         \<and> (''city'' \<in> set (columns (frame s)) \<and> sel \<noteq> [] \<longrightarrow>
              heap (sidebar_filter sel s) = heap s @ [filter_by_values (frame s) ''city'' sel]
              \<and> df_ref (sidebar_filter sel s) = length (heap s)
              \<and> cache (sidebar_filter sel s) = cache s)
         \<and> (\<not> (''city'' \<in> set (columns (frame s)) \<and> sel \<noteq> []) \<longrightarrow> sidebar_filter sel s = s)
         \<and> heap (city_block srt s)
             = heap s @ (case city_count srt (frame s) of None \<Rightarrow> []
                         | Some kcs \<Rightarrow> [set_columns [''city'', ''count''] (counts_frame ''city'' kcs)])
         \<and> df_ref (city_block srt s) = df_ref s \<and> cache (city_block srt s) = cache s
         \<and> heap (cuisine_block srt s)
             = heap s @ (case cuisine_count srt (frame s) of None \<Rightarrow> []
                         | Some kcs \<Rightarrow>
                             [set_columns [''cuisine'', ''count''] (counts_frame ''cuisines'' kcs)])
         \<and> df_ref (cuisine_block srt s) = df_ref s \<and> cache (cuisine_block srt s) = cache s
         \<and> (\<forall>s'. price_block s = Inr s' \<longrightarrow>
              heap s' = heap s @ (case price_rating (frame s) of
                                    Inr (Some kms) \<Rightarrow>
                                      [means_frame ''price_range'' ''aggregate_rating'' kms]
                                  | _ \<Rightarrow> [])
              \<and> df_ref s' = df_ref s \<and> cache s' = cache s)
         \<and> (\<forall>m s'. run srt sel csv s0 = Inr (m, s') \<longrightarrow>
              cache s' = Some (cached csv s0)
              \<and> (\<exists>new. heap s' = heap s0 @ [clean (cached csv s0)] @ new)
              \<and> compute_metrics (frame s') = Inr m)"
proof -
  have a: "heap (cleaning s) = (heap s)[df_ref s := clean (frame s)]"
    using assms by (rule heap_cleaning)
  have b: "''city'' \<in> set (columns (frame s)) \<and> sel \<noteq> [] \<longrightarrow>
              heap (sidebar_filter sel s) = heap s @ [filter_by_values (frame s) ''city'' sel]
              \<and> df_ref (sidebar_filter sel s) = length (heap s)
              \<and> cache (sidebar_filter sel s) = cache s"
    by (simp add: sidebar_filter_applies)
  have c: "\<not> (''city'' \<in> set (columns (frame s)) \<and> sel \<noteq> []) \<longrightarrow> sidebar_filter sel s = s"
    using sidebar_filter_skips by blast
  have d: "\<forall>s'. price_block s = Inr s' \<longrightarrow>
              heap s' = heap s @ (case price_rating (frame s) of
                                    Inr (Some kms) \<Rightarrow>
                                      [means_frame ''price_range'' ''aggregate_rating'' kms]
                                  | _ \<Rightarrow> [])
              \<and> df_ref s' = df_ref s \<and> cache s' = cache s"
    using price_block_Inr by blast
  have e: "\<forall>m s'. run srt sel csv s0 = Inr (m, s') \<longrightarrow>
              cache s' = Some (cached csv s0)
              \<and> (\<exists>new. heap s' = heap s0 @ [clean (cached csv s0)] @ new)
              \<and> compute_metrics (frame s') = Inr m"
    using run_Inr by blast
  from a b c d e show ?thesis
    by (simp only: df_ref_cleaning cache_cleaning city_block_def cuisine_block_def
        counts_block_heap counts_block_rest simp_thms)
qed

lemma run_restaurants: "\<not> isl (run insertion_desc [Str ''Pune''] restaurants start)"
  by code_simp

theorem stages_and_their_tables_witness:
  "df_ref loaded < length (heap loaded)
   \<and> heap (cleaning loaded) = [clean restaurants]
   \<and> df_ref (cleaning loaded) = 0
   \<and> ''city'' \<in> set (columns (frame loaded))
   \<and> heap (sidebar_filter [Str ''Pune''] loaded)
       = [restaurants, filter_by_values restaurants ''city'' [Str ''Pune'']]
   \<and> df_ref (sidebar_filter [Str ''Pune''] loaded) = 1
   \<and> length (heap (city_block insertion_desc loaded)) = 2
   \<and> (case run insertion_desc [Str ''Pune''] restaurants start of
         Inl e \<Rightarrow> False
       | Inr ms \<Rightarrow> cache (snd ms) = Some restaurants \<and> heap (snd ms) ! 0 = clean restaurants
                  \<and> compute_metrics (frame (snd ms)) = Inr (fst ms))"
proof -
  have w: "df_ref loaded < length (heap loaded)" by (simp add: loaded_eq)
  note t = stages_and_their_tables [OF w, of "[Str ''Pune'']" insertion_desc restaurants start]
  have f: "frame loaded = restaurants" by (simp add: loaded_eq frame_def)
  have c: "''city'' \<in> set (columns (frame loaded))" by (simp add: f) (simp add: restaurants_def)
  from t have 1: "heap (cleaning loaded) = [clean restaurants]"
    unfolding f by (simp add: loaded_eq)
  from t have 2: "df_ref (cleaning loaded) = 0" by (simp add: loaded_eq)
  from t c have 3: "heap (sidebar_filter [Str ''Pune''] loaded)
       = [restaurants, filter_by_values restaurants ''city'' [Str ''Pune'']]"
    and 4: "df_ref (sidebar_filter [Str ''Pune''] loaded) = 1"
    unfolding f by (simp_all add: loaded_eq)
  have cc: "city_count insertion_desc restaurants \<noteq> None"
    by (simp add: city_count_def top_n_frequency_def restaurants_def)
  from t have "heap (city_block insertion_desc loaded)
      = heap loaded @ (case city_count insertion_desc restaurants of None \<Rightarrow> []
          | Some kcs \<Rightarrow> [set_columns [''city'', ''count''] (counts_frame ''city'' kcs)])"
    unfolding f by blast
  with cc have 5: "length (heap (city_block insertion_desc loaded)) = 2"
    by (auto simp: loaded_eq)
  obtain m s' where r: "run insertion_desc [Str ''Pune''] restaurants start = Inr (m, s')"
    using run_restaurants by (cases "run insertion_desc [Str ''Pune''] restaurants start") auto
  from t r have "cache s' = Some (cached restaurants start)
      \<and> (\<exists>new. heap s' = heap start @ [clean (cached restaurants start)] @ new)
      \<and> compute_metrics (frame s') = Inr m"
    by blast
  then have 6: "cache s' = Some restaurants \<and> heap s' ! 0 = clean restaurants
      \<and> compute_metrics (frame s') = Inr m"
    by (auto simp: cached_def start_def)
  from w 1 2 c 3 4 5 6 show ?thesis
    by (simp add: r)
qed

section \<open>Unguarded reads\<close>

text \<open>
  C1. The metrics block reads the rating column without asking for it: on a table that has
  no such column it stops with \<^verbatim>\<open>KeyError\<close>, where the votes and cost metrics of the next two
  lines fall back to 0. On an empty table that has the cost column the mean is NaN and
  \<^verbatim>\<open>int\<close> stops with \<^verbatim>\<open>ValueError\<close>.
\<close>

theorem compute_metrics_raises:
  "compute_metrics no_rating = Inl (KeyError ''aggregate_rating'')
   \<and> compute_metrics empty_costs = Inl ValueError"
  by (simp add: compute_metrics_def no_rating_def empty_costs_def getitem_def and_then_def
      series_mean_def nanmean_def py_int_def)

lemma load_no_cuisines:
  "load_data no_cuisines start = \<lparr>heap = [no_cuisines], df_ref = 0, cache = Some no_cuisines\<rparr>"
  by (simp add: load_data_def cached_def start_def)

lemma clean_no_cuisines: "clean no_cuisines = no_cuisines"
  by (simp add: clean_def dropna_def drop_cols_def required_columns_def no_cuisines_def
      cell_of_def)

lemma pipeline_no_cuisines:
  "sidebar [] (cleaning (load_data no_cuisines start))
     = Inr \<lparr>heap = [no_cuisines], df_ref = 0, cache = Some no_cuisines\<rparr>"
proof -
  let ?l = "\<lparr>heap = [no_cuisines], df_ref = 0, cache = Some no_cuisines\<rparr>"
  have w: "df_ref ?l < length (heap ?l)" by simp
  have f: "frame ?l = no_cuisines" by (simp add: frame_def)
  have "heap (cleaning ?l) = heap ?l"
    using heap_cleaning [OF w] by (simp add: f clean_no_cuisines)
  then have c: "cleaning ?l = ?l"
    by (intro state.equality) (simp_all add: df_ref_cleaning cache_cleaning cleaning_def
        drop_duplicates_inplace_def dropna_inplace_def Let_def)
  have n: "''city'' \<notin> set (columns no_cuisines)" by (simp add: no_cuisines_def)
  then have "sidebar [] ?l = Inr ?l"
    by (simp add: sidebar_def f sidebar_filter_def)
  then show ?thesis by (simp add: load_no_cuisines c)
qed

text \<open>
  C2. A chart block that stops with an error although a column it uses is absent. The table
  has a rating and a cost column and no cuisines column. The script loads and cleans it,
  shows the metrics, skips the city and cuisine charts, draws the histogram, and enters the
  cost scatter of line 93, whose guard asks for the cost and the rating column only: the
  hover column \<^verbatim>\<open>cuisines\<close> is not there and the call stops with \<^verbatim>\<open>ValueError\<close>, which ends
  the run.
\<close>

theorem cost_scatter_raises:
  "run insertion_desc [] no_cuisines start = Inl ValueError
   \<and> sidebar [] (cleaning (load_data no_cuisines start))
       = Inr \<lparr>heap = [no_cuisines], df_ref = 0, cache = Some no_cuisines\<rparr>
   \<and> compute_metrics no_cuisines
       = Inr \<lparr>total_restaurants = 1, average_rating = Some 4, total_votes = 0,
              avg_cost_for_two = 500\<rparr>
   \<and> city_count insertion_desc no_cuisines = None
   \<and> cuisine_count insertion_desc no_cuisines = None
   \<and> fig3 no_cuisines = Inr [Num 4]
   \<and> fig4 no_cuisines = Inl ValueError"
proof -
  have m: "compute_metrics no_cuisines
       = Inr \<lparr>total_restaurants = 1, average_rating = Some 4, total_votes = 0,
              avg_cost_for_two = 500\<rparr>"
    by (simp add: compute_metrics_def no_cuisines_def getitem_def and_then_def series_mean_def
        nanmean_def py_int_def py_round2_def round_half_even_def cell_of_def is_text_def)
  have c: "city_count insertion_desc no_cuisines = None"
    "cuisine_count insertion_desc no_cuisines = None"
    by (simp_all add: city_count_def cuisine_count_def top_n_frequency_def no_cuisines_def)
  have h: "fig3 no_cuisines = Inr [Num 4]"
    by (simp add: fig3_def px_histogram_def no_cuisines_def cell_of_def)
  have s: "fig4 no_cuisines = Inl ValueError"
    by (simp add: fig4_def px_scatter_def present_def given_def and_then_def no_cuisines_def)
  have "run insertion_desc [] no_cuisines start = Inl ValueError"
    by (simp add: run_def pipeline_no_cuisines and_then_def frame_def m c h s city_block_def
        cuisine_block_def counts_block_def Let_def)
  with pipeline_no_cuisines m c h s show ?thesis by simp
qed

end
